theory Spec2Isabelle
  imports Main
begin

section \<open>The data model of the solver package\<close>

text \<open>
  The Go package \<^verbatim>\<open>solver\<close> is embedded function by function. Structs are records, the
  result enumeration is a datatype, a slice is a list, a nillable pointer is an option,
  and every method that mutates its receiver returns the updated receiver.
\<close>

record VersionConstraint =
  Min_c :: string
  Max_c :: string
  Specific :: string

record Term =
  Package :: string
  Version :: VersionConstraint
  Negated :: bool

text \<open>
  \<^verbatim>\<open>Incompatibility.Cause\<close> is a pointer to another incompatibility; the pointer is only ever
  followed, never compared, so the pointee is stored by value.
\<close>

datatype Incompatibility =
  Incompatibility (Terms: "Term list") (Cause: "Incompatibility option")

record Assignment =
  Term :: Term
  DecisionLevel :: int
  IsDecision :: bool
  ACause :: "Incompatibility option"

record PartialSolution =
  Assignments :: "Assignment list"

record Solver =
  partialSolution :: PartialSolution
  incompatibilities :: "Incompatibility list"
  rootPackage :: string
  rootVersion :: string

datatype SatisfactionResult = Inconclusive | Satisfied | Contradicted

subsection \<open>Version constraints\<close>

definition IsSpecific :: "VersionConstraint \<Rightarrow> bool" where
  "IsSpecific vc = (Specific vc \<noteq> [])"

definition String_vc :: "VersionConstraint \<Rightarrow> string" where
  "String_vc vc =
     (if IsSpecific vc then Specific vc
      else if Min_c vc \<noteq> [] \<and> Max_c vc \<noteq> [] then ''>='' @ Min_c vc @ '' <'' @ Max_c vc
      else if Min_c vc \<noteq> [] then ''>='' @ Min_c vc
      else if Max_c vc \<noteq> [] then ''<'' @ Max_c vc
      else ''any'')"

subsection \<open>The trail\<close>

definition AddAssignment :: "PartialSolution \<Rightarrow> Assignment \<Rightarrow> PartialSolution" where
  "AddAssignment ps a = ps\<lparr>Assignments := Assignments ps @ [a]\<rparr>"

definition GetDecisionLevel :: "PartialSolution \<Rightarrow> int" where
  "GetDecisionLevel ps =
     (if Assignments ps = [] then 0 else DecisionLevel (last (Assignments ps)))"

text \<open>
  \<^verbatim>\<open>Backtrack\<close> walks the index \<open>i\<close> down from \<open>len - 1\<close>. The counter of \<open>Backtrack_loop\<close>
  is \<open>i + 1\<close>; the slice has been cut to exactly that length when the element at \<open>i\<close> is
  read, so the read is always in range.
\<close>

fun Backtrack_loop :: "int \<Rightarrow> Assignment list \<Rightarrow> nat \<Rightarrow> Assignment list" where
  "Backtrack_loop level as 0 = as"
| "Backtrack_loop level as (Suc i) =
     (if DecisionLevel (as ! i) > level then Backtrack_loop level (take i as) i else as)"

definition Backtrack :: "PartialSolution \<Rightarrow> int \<Rightarrow> PartialSolution" where
  "Backtrack ps level =
     ps\<lparr>Assignments := Backtrack_loop level (Assignments ps) (length (Assignments ps))\<rparr>"

subsection \<open>Relation of a term and of an incompatibility to the trail\<close>

definition areCompatible :: "VersionConstraint \<Rightarrow> VersionConstraint \<Rightarrow> bool" where
  "areCompatible v1 v2 =
     (if String_vc v1 = ''any'' \<or> String_vc v2 = ''any'' then True else True)"

definition satisfies :: "VersionConstraint \<Rightarrow> VersionConstraint \<Rightarrow> bool" where
  "satisfies v1 v2 =
     (if String_vc v2 = ''any'' then True
      else if String_vc v1 = ''any'' then True
      else String_vc v1 = String_vc v2)"

text \<open>The first loop of \<^verbatim>\<open>Satisfies\<close>: true when it returns \<^verbatim>\<open>Contradicted\<close>.\<close>

fun Satisfies_contradicts :: "Assignment list \<Rightarrow> Term \<Rightarrow> bool" where
  "Satisfies_contradicts [] t = False"
| "Satisfies_contradicts (a # as) t =
     (if Package (Term a) = Package t then
        (if Negated (Term a) \<noteq> Negated t then
           (if \<not> areCompatible (Version (Term a)) (Version t) then True
            else Satisfies_contradicts as t)
         else
           (if \<not> areCompatible (Version (Term a)) (Version t) then True
            else Satisfies_contradicts as t))
      else Satisfies_contradicts as t)"

text \<open>The second loop of \<^verbatim>\<open>Satisfies\<close>: true when it returns \<^verbatim>\<open>Satisfied\<close>.\<close>

fun Satisfies_satisfied :: "Assignment list \<Rightarrow> Term \<Rightarrow> bool" where
  "Satisfies_satisfied [] t = False"
| "Satisfies_satisfied (a # as) t =
     (if Package (Term a) = Package t \<and> Negated (Term a) = Negated t
         \<and> satisfies (Version (Term a)) (Version t)
      then True
      else Satisfies_satisfied as t)"

definition Satisfies :: "PartialSolution \<Rightarrow> Term \<Rightarrow> SatisfactionResult" where
  "Satisfies ps t =
     (if Satisfies_contradicts (Assignments ps) t then Contradicted
      else if Satisfies_satisfied (Assignments ps) t then Satisfied
      else Inconclusive)"

text \<open>
  The counting loop of \<^verbatim>\<open>SatisfiesIncompatibility\<close>, threading \<^verbatim>\<open>satisfiedCount\<close> and
  \<^verbatim>\<open>contradictedCount\<close>. Go's \<^verbatim>\<open>int\<close> counters cannot overflow here (they are bounded by the
  length of a slice), so they are integers.
\<close>

fun SatisfiesIncompatibility_loop ::
  "PartialSolution \<Rightarrow> Term list \<Rightarrow> int \<Rightarrow> int \<Rightarrow> int \<times> int" where
  "SatisfiesIncompatibility_loop ps [] sc cc = (sc, cc)"
| "SatisfiesIncompatibility_loop ps (t # ts) sc cc =
     (case Satisfies ps t of
        Satisfied \<Rightarrow> SatisfiesIncompatibility_loop ps ts (sc + 1) cc
      | Contradicted \<Rightarrow> SatisfiesIncompatibility_loop ps ts sc (cc + 1)
      | Inconclusive \<Rightarrow> SatisfiesIncompatibility_loop ps ts sc cc)"

definition SatisfiesIncompatibility ::
  "PartialSolution \<Rightarrow> Incompatibility \<Rightarrow> SatisfactionResult" where
  "SatisfiesIncompatibility ps incompatibility =
     (case SatisfiesIncompatibility_loop ps (Terms incompatibility) 0 0 of
        (satisfiedCount, contradictedCount) \<Rightarrow>
          if contradictedCount > 0 then Contradicted
          else if satisfiedCount = int (length (Terms incompatibility)) then Satisfied
          else Inconclusive)"

text \<open>
  \<^verbatim>\<open>AlmostSatisfies\<close> stores \<^verbatim>\<open>&term\<close>, the address of the range variable, at the first
  inconclusive term. What the returned pointer refers to depends on the language version
  of the module, which is declared in \<^verbatim>\<open>go.mod\<close> and is not part of the sources: from
  Go 1.22 on every iteration has a variable of its own, so the pointer keeps the first
  inconclusive term; before, the loop has one variable, which holds the last term of the
  slice when the loop is over. The language version is therefore a parameter.
\<close>

datatype loopvar = PerIteration | PerLoop

fun AlmostSatisfies_loop ::
  "PartialSolution \<Rightarrow> Term list \<Rightarrow> int \<Rightarrow> Term option \<Rightarrow> int \<times> Term option" where
  "AlmostSatisfies_loop ps [] sc u = (sc, u)"
| "AlmostSatisfies_loop ps (t # ts) sc u =
     (let result = Satisfies ps t in
      if result = Satisfied then AlmostSatisfies_loop ps ts (sc + 1) u
      else if result = Inconclusive then
        (if u = None then AlmostSatisfies_loop ps ts sc (Some t)
         else AlmostSatisfies_loop ps ts sc u)
      else AlmostSatisfies_loop ps ts sc u)"

definition AlmostSatisfies ::
  "loopvar \<Rightarrow> PartialSolution \<Rightarrow> Incompatibility \<Rightarrow> Term option" where
  "AlmostSatisfies lv ps incompatibility =
     (case AlmostSatisfies_loop ps (Terms incompatibility) 0 None of
        (satisfiedCount, unsatisfiedTerm) \<Rightarrow>
          if satisfiedCount = int (length (Terms incompatibility)) - 1
             \<and> unsatisfiedTerm \<noteq> None
          then (case lv of
                  PerIteration \<Rightarrow> unsatisfiedTerm
                | PerLoop \<Rightarrow> Some (last (Terms incompatibility)))
          else None)"

section \<open>Conflict resolution\<close>

definition isRootCause :: "Solver \<Rightarrow> Incompatibility \<Rightarrow> bool" where
  "isRootCause s incompatibility =
     (if length (Terms incompatibility) = 0 then True
      else if length (Terms incompatibility) = 1
              \<and> Package (Terms incompatibility ! 0) = rootPackage s
              \<and> \<not> Negated (Terms incompatibility ! 0) then True
      else False)"

definition assignmentSatisfiesIncompatibility ::
  "Solver \<Rightarrow> Assignment \<Rightarrow> Incompatibility \<Rightarrow> bool" where
  "assignmentSatisfiesIncompatibility s assignment incompatibility = False"

definition assignmentPlusSatisfierSatisfiesIncompatibility ::
  "Solver \<Rightarrow> Assignment \<Rightarrow> Assignment \<Rightarrow> Incompatibility \<Rightarrow> bool" where
  "assignmentPlusSatisfierSatisfiesIncompatibility s assignment satisfier incompatibility = False"

text \<open>\<^verbatim>\<open>findSatisfier\<close> scans the trail from its last index down; the counter is \<open>i + 1\<close>.\<close>

fun findSatisfier_loop :: "Solver \<Rightarrow> Incompatibility \<Rightarrow> nat \<Rightarrow> Assignment option" where
  "findSatisfier_loop s incompatibility 0 = None"
| "findSatisfier_loop s incompatibility (Suc i) =
     (let assignment = Assignments (partialSolution s) ! i in
      if assignmentSatisfiesIncompatibility s assignment incompatibility then Some assignment
      else findSatisfier_loop s incompatibility i)"

definition findSatisfier :: "Solver \<Rightarrow> Incompatibility \<Rightarrow> Assignment option" where
  "findSatisfier s incompatibility =
     findSatisfier_loop s incompatibility (length (Assignments (partialSolution s)))"

text \<open>
  \<^verbatim>\<open>findPreviousSatisfier\<close> looks for the index of the satisfier with the test
  \<^verbatim>\<open>&assignment == satisfier\<close>. The left side is the address of the range variable of this
  very loop, the right side points to the variable that \<^verbatim>\<open>findSatisfier\<close> declared in its own
  loop body: two different variables, whatever they hold. The comparison is false on every
  iteration.
\<close>

definition same_variable :: "Assignment \<Rightarrow> Assignment \<Rightarrow> bool" where
  "same_variable assignment satisfier = False"

fun satisfierIndex_loop :: "Assignment list \<Rightarrow> Assignment \<Rightarrow> int \<Rightarrow> int" where
  "satisfierIndex_loop [] satisfier i = -1"
| "satisfierIndex_loop (assignment # as) satisfier i =
     (if same_variable assignment satisfier then i
      else satisfierIndex_loop as satisfier (i + 1))"

fun findPreviousSatisfier_loop ::
  "Solver \<Rightarrow> Incompatibility \<Rightarrow> Assignment \<Rightarrow> nat \<Rightarrow> Assignment option" where
  "findPreviousSatisfier_loop s incompatibility satisfier 0 = None"
| "findPreviousSatisfier_loop s incompatibility satisfier (Suc i) =
     (let assignment = Assignments (partialSolution s) ! i in
      if assignmentPlusSatisfierSatisfiesIncompatibility s assignment satisfier incompatibility
      then Some assignment
      else findPreviousSatisfier_loop s incompatibility satisfier i)"

definition findPreviousSatisfier ::
  "Solver \<Rightarrow> Incompatibility \<Rightarrow> Assignment \<Rightarrow> Assignment option" where
  "findPreviousSatisfier s incompatibility satisfier =
     (let satisfierIndex = satisfierIndex_loop (Assignments (partialSolution s)) satisfier 0 in
      if satisfierIndex = -1 then None
      else findPreviousSatisfier_loop s incompatibility satisfier (nat satisfierIndex))"

definition getPreviousSatisfierLevel :: "Assignment option \<Rightarrow> int" where
  "getPreviousSatisfierLevel previousSatisfier =
     (case previousSatisfier of None \<Rightarrow> 1 | Some a \<Rightarrow> DecisionLevel a)"

definition determineBacktrackLevel :: "Solver \<Rightarrow> Incompatibility \<Rightarrow> int" where
  "determineBacktrackLevel s incompatibility = 0"

definition backtrackFromConflict :: "Solver \<Rightarrow> Incompatibility \<Rightarrow> Solver" where
  "backtrackFromConflict s incompatibility =
     (let backtrackLevel = determineBacktrackLevel s incompatibility in
      s\<lparr>partialSolution := Backtrack (partialSolution s) backtrackLevel\<rparr>)"

definition createPriorCause ::
  "Solver \<Rightarrow> Incompatibility \<Rightarrow> Assignment \<Rightarrow> Incompatibility" where
  "createPriorCause s incompatibility satisfier =
     (let mergedTerms = [] @ Terms incompatibility;
          mergedTerms =
            (case ACause satisfier of
               None \<Rightarrow> mergedTerms
             | Some cause \<Rightarrow>
                 mergedTerms @ filter (\<lambda>t. Package t \<noteq> Package (Term satisfier)) (Terms cause))
      in Incompatibility mergedTerms (Some incompatibility))"

text \<open>
  The loop of \<^verbatim>\<open>resolveConflict\<close> has no bound of its own. The result is the returned
  pointer (\<open>None\<close> for \<^verbatim>\<open>nil\<close>) and the solver as the call leaves it. The loop goes round
  again only after \<^verbatim>\<open>findSatisfier\<close> has returned an assignment, which it never does.
\<close>

function resolveConflict ::
  "Solver \<Rightarrow> Incompatibility \<Rightarrow> Incompatibility option \<times> Solver" where
  "resolveConflict s incompatibility =
     (if isRootCause s incompatibility
      then (Some incompatibility, backtrackFromConflict s incompatibility)
      else
        (case findSatisfier s incompatibility of
           None \<Rightarrow> (None, s)
         | Some satisfier \<Rightarrow>
             (let previousSatisfier = findPreviousSatisfier s incompatibility satisfier;
                  previousSatisfierLevel = getPreviousSatisfierLevel previousSatisfier
              in if IsDecision satisfier \<or> previousSatisfierLevel \<noteq> DecisionLevel satisfier
                 then (Some incompatibility, backtrackFromConflict s incompatibility)
                 else resolveConflict s (createPriorCause s incompatibility satisfier))))"
  by pat_completeness auto
termination
proof (relation "{}")
  show "wf {}" by simp
next
  fix s incompatibility satisfier
  assume found: "findSatisfier s incompatibility = Some satisfier"
  have "findSatisfier_loop s incompatibility n = None" for n
    by (induction n) (simp_all add: assignmentSatisfiesIncompatibility_def)
  with found have False by (simp add: findSatisfier_def)
  then show "((s, createPriorCause s incompatibility satisfier), (s, incompatibility)) \<in> {}" ..
qed

declare resolveConflict.simps [simp del]

section \<open>Unit propagation\<close>

record UnitPropagationResult =
  Success_up :: bool
  Conflict :: "Incompatibility option"

text \<open>The inner loop of \<^verbatim>\<open>getIncompatibilitiesForPackage\<close>, left by \<^verbatim>\<open>break\<close> at the first hit.\<close>

fun refers_to :: "Term list \<Rightarrow> string \<Rightarrow> bool" where
  "refers_to [] packageName = False"
| "refers_to (t # ts) packageName =
     (if Package t = packageName then True else refers_to ts packageName)"

fun getIncompatibilitiesForPackage_loop ::
  "Incompatibility list \<Rightarrow> string \<Rightarrow> Incompatibility list \<Rightarrow> Incompatibility list" where
  "getIncompatibilitiesForPackage_loop [] packageName result = result"
| "getIncompatibilitiesForPackage_loop (incompatibility # rest) packageName result =
     getIncompatibilitiesForPackage_loop rest packageName
       (if refers_to (Terms incompatibility) packageName then result @ [incompatibility]
        else result)"

definition getIncompatibilitiesForPackage :: "Solver \<Rightarrow> string \<Rightarrow> Incompatibility list" where
  "getIncompatibilitiesForPackage s packageName =
     getIncompatibilitiesForPackage_loop (incompatibilities s) packageName []"

text \<open>
  \<^verbatim>\<open>changed\<close> is a \<^verbatim>\<open>map[string]bool\<close> whose values are all \<^verbatim>\<open>true\<close>: a set of package names,
  kept here as the list of its keys without repetition. \<open>changed_add\<close> is the assignment
  \<^verbatim>\<open>changed[p] = true\<close>.
\<close>

definition changed_add :: "string \<Rightarrow> string list \<Rightarrow> string list" where
  "changed_add p changed = (if p \<in> set changed then changed else changed @ [p])"

definition derivation :: "PartialSolution \<Rightarrow> Term \<Rightarrow> Incompatibility \<Rightarrow> Assignment" where
  "derivation ps unsatisfiedTerm cause =
     \<lparr>Term = unsatisfiedTerm\<lparr>Negated := \<not> Negated unsatisfiedTerm\<rparr>,
      DecisionLevel = GetDecisionLevel ps,
      IsDecision = False,
      ACause = Some cause\<rparr>"

definition derive :: "Solver \<Rightarrow> Assignment \<Rightarrow> Solver" where
  "derive s assignment =
     s\<lparr>partialSolution := AddAssignment (partialSolution s) assignment\<rparr>"

text \<open>
  The body of the inner loop of \<^verbatim>\<open>UnitPropagation\<close> for one incompatibility. It either
  leaves the whole function with a failure, or ends with a solver and a changed set, and
  the loop goes on from these: no path through the body leaves the loop alone.
\<close>

datatype scan_result = Failed Incompatibility Solver | Scanned Solver "string list"

definition scan_step ::
  "loopvar \<Rightarrow> Solver \<Rightarrow> string list \<Rightarrow> Incompatibility \<Rightarrow> scan_result" where
  "scan_step lv s changed incompatibility =
     (let result = SatisfiesIncompatibility (partialSolution s) incompatibility in
      if result = Satisfied then
        (case resolveConflict s incompatibility of
           (None, s') \<Rightarrow> Failed incompatibility s'
         | (Some resolvedIncompatibility, s') \<Rightarrow>
             (case AlmostSatisfies lv (partialSolution s') resolvedIncompatibility of
                Some unsatisfiedTerm \<Rightarrow>
                  Scanned
                    (derive s'
                       (derivation (partialSolution s') unsatisfiedTerm
                          resolvedIncompatibility))
                    [Package unsatisfiedTerm]
              | None \<Rightarrow> Scanned s' changed))
      else if result = Inconclusive then
        (case AlmostSatisfies lv (partialSolution s) incompatibility of
           Some unsatisfiedTerm \<Rightarrow>
             Scanned
               (derive s (derivation (partialSolution s) unsatisfiedTerm incompatibility))
               (changed_add (Package unsatisfiedTerm) changed)
         | None \<Rightarrow> Scanned s changed)
      else Scanned s changed)"

text \<open>
  The inner loop over the incompatibilities of the current package, from the newest (last
  index) to the oldest; the counter is \<open>i + 1\<close>.
\<close>

fun scan ::
  "loopvar \<Rightarrow> Incompatibility list \<Rightarrow> nat \<Rightarrow> Solver \<Rightarrow> string list \<Rightarrow> scan_result" where
  "scan lv incs 0 s changed = Scanned s changed"
| "scan lv incs (Suc i) s changed =
     (case scan_step lv s changed (incs ! i) of
        Failed incompatibility s' \<Rightarrow> Failed incompatibility s'
      | Scanned s' changed' \<Rightarrow> scan lv incs i s' changed')"

text \<open>
  The outer loop removes "an element" of the map with \<^verbatim>\<open>for pkg := range changed\<close>. Go does
  not specify the iteration order of a map and the runtime randomises it, so which key
  comes out is not determined by the program. The schedule, a list of numbers, makes the
  choice explicit: each turn of the loop consumes one number \<open>k\<close> and removes the key at
  position \<open>k mod len\<close>. The schedule is also the fuel of the loop, which has no bound of
  its own: \<open>None\<close> means that the loop is still running when the schedule is used up.
\<close>

fun UnitPropagation_loop ::
  "loopvar \<Rightarrow> nat list \<Rightarrow> Solver \<Rightarrow> string list \<Rightarrow> (UnitPropagationResult \<times> Solver) option"
  where
  "UnitPropagation_loop lv schedule s [] = Some (\<lparr>Success_up = True, Conflict = None\<rparr>, s)"
| "UnitPropagation_loop lv [] s (p # changed) = None"
| "UnitPropagation_loop lv (k # schedule) s (p # changed) =
     (let currentPackage = (p # changed) ! (k mod length (p # changed));
          changed' = removeAll currentPackage (p # changed);
          incs = getIncompatibilitiesForPackage s currentPackage
      in case scan lv incs (length incs) s changed' of
           Failed incompatibility s' \<Rightarrow>
             Some (\<lparr>Success_up = False, Conflict = Some incompatibility\<rparr>, s')
         | Scanned s' changed'' \<Rightarrow> UnitPropagation_loop lv schedule s' changed'')"

definition UnitPropagation ::
  "loopvar \<Rightarrow> nat list \<Rightarrow> Solver \<Rightarrow> string \<Rightarrow> (UnitPropagationResult \<times> Solver) option" where
  "UnitPropagation lv schedule s packageName = UnitPropagation_loop lv schedule s [packageName]"

section \<open>Decision making\<close>

record DecisionResult =
  Success_dm :: bool
  NextPackage :: string
  Error_dm :: string

text \<open>The inner loop of \<^verbatim>\<open>findPackageForDecision\<close>: the final value of \<^verbatim>\<open>hasDecision\<close>.\<close>

fun hasDecision :: "Assignment list \<Rightarrow> string \<Rightarrow> bool" where
  "hasDecision [] p = False"
| "hasDecision (otherAssignment # as) p =
     (if IsDecision otherAssignment \<and> Package (Term otherAssignment) = p then True
      else hasDecision as p)"

fun findPackageForDecision_loop :: "Assignment list \<Rightarrow> Assignment list \<Rightarrow> string" where
  "findPackageForDecision_loop all [] = []"
| "findPackageForDecision_loop all (assignment # as) =
     (if \<not> IsDecision assignment \<and> \<not> Negated (Term assignment) then
        (if \<not> hasDecision all (Package (Term assignment)) then Package (Term assignment)
         else findPackageForDecision_loop all as)
      else findPackageForDecision_loop all as)"

definition findPackageForDecision :: "Solver \<Rightarrow> string" where
  "findPackageForDecision s =
     findPackageForDecision_loop (Assignments (partialSolution s)) (Assignments (partialSolution s))"

fun getTermForPackage_loop :: "Assignment list \<Rightarrow> string \<Rightarrow> Term list \<Rightarrow> Term list" where
  "getTermForPackage_loop [] packageName terms = terms"
| "getTermForPackage_loop (assignment # as) packageName terms =
     getTermForPackage_loop as packageName
       (if Package (Term assignment) = packageName then terms @ [Term assignment] else terms)"

definition getTermForPackage :: "Solver \<Rightarrow> string \<Rightarrow> Term option" where
  "getTermForPackage s packageName =
     (let terms = getTermForPackage_loop (Assignments (partialSolution s)) packageName [] in
      if length terms = 0 then None else Some (terms ! 0))"

definition findMatchingVersion :: "Solver \<Rightarrow> string \<Rightarrow> Term \<Rightarrow> string" where
  "findMatchingVersion s packageName t =
     (if IsSpecific (Version t) then Specific (Version t) else ''1.0.0'')"

definition addDependenciesForVersion :: "Solver \<Rightarrow> string \<Rightarrow> string \<Rightarrow> Solver" where
  "addDependenciesForVersion s packageName version =
     (let dependency =
        Incompatibility
          [\<lparr>Package = packageName,
            Version = \<lparr>Min_c = [], Max_c = [], Specific = version\<rparr>,
            Negated = False\<rparr>,
           \<lparr>Package = ''dependency'',
            Version = \<lparr>Min_c = ''1.0.0'', Max_c = [], Specific = []\<rparr>,
            Negated = True\<rparr>]
          None
      in s\<lparr>incompatibilities := incompatibilities s @ [dependency]\<rparr>)"

text \<open>
  The two ways out of \<^verbatim>\<open>DecisionMaking\<close> once a version has been looked up: the branch taken
  when the version is the empty string, and the rest of the function.
\<close>

definition no_matching_version :: "Solver \<Rightarrow> string \<Rightarrow> Term \<Rightarrow> DecisionResult \<times> Solver" where
  "no_matching_version s packageName t =
     (let incompatibility = Incompatibility [t] None in
      (\<lparr>Success_dm = False, NextPackage = packageName, Error_dm = []\<rparr>,
       s\<lparr>incompatibilities := incompatibilities s @ [incompatibility]\<rparr>))"

definition decide :: "Solver \<Rightarrow> string \<Rightarrow> string \<Rightarrow> DecisionResult \<times> Solver" where
  "decide s packageName version =
     (let s1 = addDependenciesForVersion s packageName version;
          decisionTerm =
            \<lparr>Package = packageName,
             Version = \<lparr>Min_c = [], Max_c = [], Specific = version\<rparr>,
             Negated = False\<rparr>;
          assignment =
            \<lparr>Term = decisionTerm,
             DecisionLevel = GetDecisionLevel (partialSolution s1) + 1,
             IsDecision = True,
             ACause = None\<rparr>
      in (\<lparr>Success_dm = False, NextPackage = packageName, Error_dm = []\<rparr>,
          s1\<lparr>partialSolution := AddAssignment (partialSolution s1) assignment\<rparr>))"

definition DecisionMaking :: "Solver \<Rightarrow> DecisionResult \<times> Solver" where
  "DecisionMaking s =
     (let packageName = findPackageForDecision s in
      if packageName = [] then (\<lparr>Success_dm = True, NextPackage = [], Error_dm = []\<rparr>, s)
      else
        (case getTermForPackage s packageName of
           None \<Rightarrow>
             (\<lparr>Success_dm = False, NextPackage = [],
               Error_dm = ''no term found for package '' @ packageName\<rparr>, s)
         | Some t \<Rightarrow>
             (let version = findMatchingVersion s packageName t in
              if version = [] then no_matching_version s packageName t
              else decide s packageName version)))"

section \<open>The solver\<close>

definition NewSolver :: "string \<Rightarrow> string \<Rightarrow> Solver" where
  "NewSolver rootPackage' rootVersion' =
     \<lparr>partialSolution = \<lparr>Assignments = []\<rparr>,
      incompatibilities = [],
      rootPackage = rootPackage',
      rootVersion = rootVersion'\<rparr>"

definition AddIncompatibility :: "Solver \<Rightarrow> Incompatibility \<Rightarrow> Solver" where
  "AddIncompatibility s incompatibility =
     s\<lparr>incompatibilities := incompatibilities s @ [incompatibility]\<rparr>"

definition addRootIncompatibilities :: "Solver \<Rightarrow> Solver" where
  "addRootIncompatibilities s =
     (let rootIncompatibility =
        Incompatibility
          [\<lparr>Package = rootPackage s,
            Version = \<lparr>Min_c = [], Max_c = [], Specific = rootVersion s\<rparr>,
            Negated = False\<rparr>,
           \<lparr>Package = ''dependency'',
            Version = \<lparr>Min_c = ''1.0.0'', Max_c = [], Specific = []\<rparr>,
            Negated = True\<rparr>]
          None
      in s\<lparr>incompatibilities := incompatibilities s @ [rootIncompatibility]\<rparr>)"

definition initializeRootPackage :: "Solver \<Rightarrow> Solver" where
  "initializeRootPackage s =
     (let rootTerm =
            \<lparr>Package = rootPackage s,
             Version = \<lparr>Min_c = [], Max_c = [], Specific = rootVersion s\<rparr>,
             Negated = False\<rparr>;
          rootAssignment =
            \<lparr>Term = rootTerm, DecisionLevel = 0, IsDecision = True, ACause = None\<rparr>
      in addRootIncompatibilities
           (s\<lparr>partialSolution := AddAssignment (partialSolution s) rootAssignment\<rparr>))"

text \<open>
  \<^verbatim>\<open>Solve\<close> returns a pointer to the trail or an error; the solver it leaves behind is
  returned with it, since \<^verbatim>\<open>GetSolution\<close> still reads the trail after a failure. The main
  loop has no bound of its own: it takes one schedule for each call of
  \<^verbatim>\<open>UnitPropagation\<close>, and \<open>None\<close> means that it is still running when they are used up.
\<close>

datatype SolveResult = Solution PartialSolution | SolveError string

fun Solve_loop ::
  "loopvar \<Rightarrow> nat list list \<Rightarrow> Solver \<Rightarrow> string \<Rightarrow> (SolveResult \<times> Solver) option" where
  "Solve_loop lv [] s nextPackage = None"
| "Solve_loop lv (schedule # schedules) s nextPackage =
     (case UnitPropagation lv schedule s nextPackage of
        None \<Rightarrow> None
      | Some (result, s1) \<Rightarrow>
          if \<not> Success_up result
          then Some (SolveError ''version solving failed: conflict detected'', s1)
          else
            (case DecisionMaking s1 of
               (decisionResult, s2) \<Rightarrow>
                 if Success_dm decisionResult then Some (Solution (partialSolution s2), s2)
                 else if Error_dm decisionResult \<noteq> []
                 then Some (SolveError (''decision making failed: '' @ Error_dm decisionResult), s2)
                 else Solve_loop lv schedules s2 (NextPackage decisionResult)))"

definition Solve :: "loopvar \<Rightarrow> nat list list \<Rightarrow> Solver \<Rightarrow> (SolveResult \<times> Solver) option" where
  "Solve lv schedules s = Solve_loop lv schedules (initializeRootPackage s) (rootPackage s)"

text \<open>
  The configurations at the head of the main loop of \<^verbatim>\<open>Solve\<close>, started on the solver \<open>s0\<close>:
  the solver and the package that the coming call of \<^verbatim>\<open>UnitPropagation\<close> starts from.
\<close>

inductive loop_head :: "loopvar \<Rightarrow> Solver \<Rightarrow> Solver \<Rightarrow> string \<Rightarrow> bool"
  for lv :: loopvar and s0 :: Solver where
  first: "loop_head lv s0 (initializeRootPackage s0) (rootPackage s0)"
| again: "loop_head lv s0 s nextPackage \<Longrightarrow>
          UnitPropagation lv schedule s nextPackage = Some (result, s1) \<Longrightarrow>
          Success_up result \<Longrightarrow>
          DecisionMaking s1 = (decisionResult, s2) \<Longrightarrow>
          \<not> Success_dm decisionResult \<Longrightarrow>
          Error_dm decisionResult = [] \<Longrightarrow>
          loop_head lv s0 s2 (NextPackage decisionResult)"

section \<open>Decisions on the trail\<close>

text \<open>
  The packages of the decisions on a trail, in trail order, and the property that no
  package has two decisions on the trail of a solver.
\<close>

definition decided_packages :: "Assignment list \<Rightarrow> string list" where
  "decided_packages as = map (\<lambda>a. Package (Term a)) (filter IsDecision as)"

definition one_decision_per_package :: "Solver \<Rightarrow> bool" where
  "one_decision_per_package s = distinct (decided_packages (Assignments (partialSolution s)))"

section \<open>Concrete solver states\<close>

text \<open>A trail of four decisions with the levels 0, 1, 2, 2.\<close>

definition level_trail :: PartialSolution where
  "level_trail =
     \<lparr>Assignments =
        map (\<lambda>(p, l).
               \<lparr>Term = \<lparr>Package = p,
                         Version = \<lparr>Min_c = [], Max_c = [], Specific = ''1.0.0''\<rparr>,
                         Negated = False\<rparr>,
                DecisionLevel = l, IsDecision = True, ACause = None\<rparr>)
          [(''root'', 0), (''a'', 1), (''b'', 2), (''c'', 2)]\<rparr>"

text \<open>
  The tests of the package solve for the root \<open>foo 1.0.0\<close>. These are the terms and
  incompatibilities they use, the decision that \<^verbatim>\<open>initializeRootPackage\<close> records for that
  root, and the incompatibility \<open>{foo 1.0.0, not dependency >=1.0.0}\<close> that
  \<^verbatim>\<open>addRootIncompatibilities\<close> adds.
\<close>

definition foo_term :: Term where
  "foo_term =
     \<lparr>Package = ''foo'', Version = \<lparr>Min_c = [], Max_c = [], Specific = ''1.0.0''\<rparr>,
      Negated = False\<rparr>"

definition not_dependency :: Term where
  "not_dependency =
     \<lparr>Package = ''dependency'', Version = \<lparr>Min_c = ''1.0.0'', Max_c = [], Specific = []\<rparr>,
      Negated = True\<rparr>"

definition foo_decision :: Assignment where
  "foo_decision = \<lparr>Term = foo_term, DecisionLevel = 0, IsDecision = True, ACause = None\<rparr>"

definition foo_trail :: PartialSolution where
  "foo_trail = \<lparr>Assignments = [foo_decision]\<rparr>"

definition foo_dependency :: Incompatibility where
  "foo_dependency = Incompatibility [foo_term, not_dependency] None"

definition dependency_derivation :: Assignment where
  "dependency_derivation =
     \<lparr>Term = not_dependency\<lparr>Negated := False\<rparr>, DecisionLevel = 0, IsDecision = False,
      ACause = Some foo_dependency\<rparr>"

text \<open>
  \<^verbatim>\<open>TestSolver_Solve_Conflict\<close>: the incompatibilities \<open>{foo 1.0.0}\<close> and \<open>{not foo 1.0.0}\<close> are
  added to a new solver for \<open>foo 1.0.0\<close>. \<open>at_root_conflict\<close> is the solver when the first pass
  of unit propagation comes to \<open>{foo 1.0.0}\<close>.
\<close>

definition only_foo :: Incompatibility where
  "only_foo = Incompatibility [foo_term] None"

definition only_not_foo :: Incompatibility where
  "only_not_foo = Incompatibility [foo_term\<lparr>Negated := True\<rparr>] None"

definition test_conflict_solver :: Solver where
  "test_conflict_solver =
     AddIncompatibility (AddIncompatibility (NewSolver ''foo'' ''1.0.0'') only_foo) only_not_foo"

definition foo_derivation :: Assignment where
  "foo_derivation =
     \<lparr>Term = foo_term, DecisionLevel = 0, IsDecision = False, ACause = Some only_not_foo\<rparr>"

definition at_root_conflict :: Solver where
  "at_root_conflict =
     \<lparr>partialSolution = \<lparr>Assignments = [foo_decision, dependency_derivation, foo_derivation]\<rparr>,
      incompatibilities = [only_foo, only_not_foo, foo_dependency],
      rootPackage = ''foo'', rootVersion = ''1.0.0''\<rparr>"

text \<open>
  A solver for \<open>foo 1.0.0\<close> with the incompatibilities \<open>{foo 1.0.0, not p 1}\<close> (the root needs
  \<open>p 1\<close>) and \<open>{p 1}\<close> (which cannot be selected). \<open>at_p_conflict\<close> is the solver when unit
  propagation comes to \<open>{p 1}\<close> right after the first pass.
\<close>

definition p_term :: Term where
  "p_term =
     \<lparr>Package = ''p'', Version = \<lparr>Min_c = [], Max_c = [], Specific = ''1''\<rparr>,
      Negated = False\<rparr>"

definition needs_p :: Incompatibility where
  "needs_p = Incompatibility [foo_term, p_term\<lparr>Negated := True\<rparr>] None"

definition only_p :: Incompatibility where
  "only_p = Incompatibility [p_term] None"

definition p_solver :: Solver where
  "p_solver = AddIncompatibility (AddIncompatibility (NewSolver ''foo'' ''1.0.0'') needs_p) only_p"

definition p_derivation :: Assignment where
  "p_derivation =
     \<lparr>Term = p_term, DecisionLevel = 0, IsDecision = False, ACause = Some needs_p\<rparr>"

definition at_p_conflict :: Solver where
  "at_p_conflict =
     \<lparr>partialSolution = \<lparr>Assignments = [foo_decision, dependency_derivation, p_derivation]\<rparr>,
      incompatibilities = [needs_p, only_p, foo_dependency],
      rootPackage = ''foo'', rootVersion = ''1.0.0''\<rparr>"

text \<open>
  The solver of \<^verbatim>\<open>TestSolver_Solve_Success\<close>, which adds \<open>{foo 1.0.0}\<close>, with the older
  incompatibility \<open>{foo 1.0.0, not bar 1.0.0}\<close> before it. \<open>before_bar\<close> is the solver when
  the first pass of unit propagation comes to \<open>{foo 1.0.0}\<close>, \<open>after_bar\<close> the solver at
  the end of that pass.
\<close>

definition bar_term :: Term where
  "bar_term =
     \<lparr>Package = ''bar'', Version = \<lparr>Min_c = [], Max_c = [], Specific = ''1.0.0''\<rparr>,
      Negated = False\<rparr>"

definition needs_bar :: Incompatibility where
  "needs_bar = Incompatibility [foo_term, bar_term\<lparr>Negated := True\<rparr>] None"

definition bar_solver :: Solver where
  "bar_solver = AddIncompatibility (AddIncompatibility (NewSolver ''foo'' ''1.0.0'') needs_bar) only_foo"

definition before_bar :: Solver where
  "before_bar =
     \<lparr>partialSolution = \<lparr>Assignments = [foo_decision, dependency_derivation]\<rparr>,
      incompatibilities = [needs_bar, only_foo, foo_dependency],
      rootPackage = ''foo'', rootVersion = ''1.0.0''\<rparr>"

definition after_bar :: Solver where
  "after_bar =
     before_bar\<lparr>partialSolution :=
       \<lparr>Assignments =
          [foo_decision, dependency_derivation,
           \<lparr>Term = bar_term, DecisionLevel = 0, IsDecision = False,
            ACause = Some needs_bar\<rparr>]\<rparr>\<rparr>"

text \<open>
  A trail with the root decision at level 0 and a decision for \<open>p 1\<close> at level 1, and the
  incompatibility \<open>{foo 1.0.0, p 1}\<close>, which that trail satisfies.
\<close>

definition foo_and_p :: Incompatibility where
  "foo_and_p = Incompatibility [foo_term, p_term] None"

definition p_decision :: Assignment where
  "p_decision = \<lparr>Term = p_term, DecisionLevel = 1, IsDecision = True, ACause = None\<rparr>"

definition at_level_one :: Solver where
  "at_level_one =
     \<lparr>partialSolution = \<lparr>Assignments = [foo_decision, p_decision]\<rparr>,
      incompatibilities = [foo_and_p],
      rootPackage = ''foo'', rootVersion = ''1.0.0''\<rparr>"

text \<open>The positive term \<open>foo 2.0.0\<close>.\<close>

definition foo2_term :: Term where
  "foo2_term =
     \<lparr>Package = ''foo'', Version = \<lparr>Min_c = [], Max_c = [], Specific = ''2.0.0''\<rparr>,
      Negated = False\<rparr>"




text \<open>A trail whose only assignment asserts the positive term \<open>foo any\<close>.\<close>

definition any_foo_trail :: PartialSolution where
  "any_foo_trail =
     \<lparr>Assignments =
        [\<lparr>Term = \<lparr>Package = ''foo'', Version = \<lparr>Min_c = [], Max_c = [], Specific = []\<rparr>,
                  Negated = False\<rparr>,
          DecisionLevel = 0, IsDecision = False, ACause = None\<rparr>]\<rparr>"

text \<open>The packages of the assignments of the trail a run of \<^verbatim>\<open>Solve\<close> leaves behind.\<close>

definition trail_packages :: "(SolveResult \<times> Solver) option \<Rightarrow> string list option" where
  "trail_packages run =
     map_option (\<lambda>(result, s). map (\<lambda>a. Package (Term a)) (Assignments (partialSolution s))) run"

section \<open>The states of the conflict test\<close>

text \<open>
  The solvers that unit propagation goes through on \<^verbatim>\<open>TestSolver_Solve_Conflict\<close>: the
  three incompatibilities of the test, the root \<open>foo\<close>, and a trail that starts with the
  root decision and otherwise holds the derivations of \<open>dependency >=1.0.0\<close> and
  \<open>foo 1.0.0\<close> only.
\<close>

definition conflict_test_state :: "Solver \<Rightarrow> bool" where
  "conflict_test_state s \<longleftrightarrow>
     incompatibilities s = [only_foo, only_not_foo, foo_dependency]
     \<and> rootPackage s = ''foo''
     \<and> (\<exists>rest. Assignments (partialSolution s) = foo_decision # rest
           \<and> set rest \<subseteq> {dependency_derivation, foo_derivation})"

section \<open>Backtracking\<close>

lemma Backtrack_loop_take:
  "n \<le> length as \<Longrightarrow> \<exists>k \<le> n. Backtrack_loop level (take n as) n = take k as
     \<and> (\<forall>j. k \<le> j \<and> j < n \<longrightarrow> DecisionLevel (as ! j) > level)
     \<and> (k = 0 \<or> DecisionLevel (as ! (k - 1)) \<le> level)"
proof (induction n)
  case 0
  then show ?case by simp
next
  case (Suc n)
  show ?case
  proof (cases "DecisionLevel (as ! n) > level")
    case True
    from Suc.prems have "n \<le> length as" by simp
    from Suc.IH [OF this] obtain k where k: "k \<le> n"
      "Backtrack_loop level (take n as) n = take k as"
      "\<forall>j. k \<le> j \<and> j < n \<longrightarrow> DecisionLevel (as ! j) > level"
      "k = 0 \<or> DecisionLevel (as ! (k - 1)) \<le> level"
      by blast
    have "take n (take (Suc n) as) = take n as" by simp
    with True k(2) have "Backtrack_loop level (take (Suc n) as) (Suc n) = take k as"
      using Suc.prems by simp
    moreover have "\<forall>j. k \<le> j \<and> j < Suc n \<longrightarrow> DecisionLevel (as ! j) > level"
      using k(3) True by (auto simp: less_Suc_eq)
    ultimately show ?thesis using k(1,4) by (intro exI [of _ k]) simp
  next
    case False
    then have "Backtrack_loop level (take (Suc n) as) (Suc n) = take (Suc n) as"
      using Suc.prems by simp
    with False show ?thesis by (intro exI [of _ "Suc n"]) simp
  qed
qed

text \<open>
  Claim C9. For every partial solution and every level \<open>L\<close>, \<^verbatim>\<open>Backtrack(L)\<close> keeps a prefix of
  the trail, unchanged and in order: the prefix of length \<open>k\<close> that ends at the most
  recent assignment whose decision level is at most \<open>L\<close> (the empty prefix when there is
  none). Exactly the assignments after it are removed, and all of them have a level
  above \<open>L\<close>.
\<close>

theorem Backtrack_truncates:
  "\<exists>k \<le> length (Assignments ps).
     Assignments (Backtrack ps L) = take k (Assignments ps)
     \<and> (\<forall>j. k \<le> j \<and> j < length (Assignments ps)
            \<longrightarrow> DecisionLevel (Assignments ps ! j) > L)
     \<and> (k = 0 \<or> DecisionLevel (Assignments ps ! (k - 1)) \<le> L)"
  using Backtrack_loop_take [of "length (Assignments ps)" "Assignments ps" L]
  by (simp add: Backtrack_def)

text \<open>
  A trail with levels 0, 1, 2, 2 is cut by \<^verbatim>\<open>Backtrack(1)\<close> to its first two assignments:
  the theorem leaves no other choice of \<open>k\<close>.
\<close>

theorem Backtrack_truncates_witness:
  "Assignments (Backtrack level_trail 1) = take 2 (Assignments level_trail)"
proof -
  have len: "length (Assignments level_trail) = 4"
    by (simp add: level_trail_def)
  have lv: "DecisionLevel (Assignments level_trail ! 1) = 1"
    "DecisionLevel (Assignments level_trail ! 2) = 2"
    "DecisionLevel (Assignments level_trail ! 3) = 2"
    by (simp_all add: level_trail_def)
  from Backtrack_truncates [of level_trail 1] obtain k where
    k: "k \<le> 4" "Assignments (Backtrack level_trail 1) = take k (Assignments level_trail)"
      "\<forall>j. k \<le> j \<and> j < 4 \<longrightarrow> DecisionLevel (Assignments level_trail ! j) > 1"
      "k = 0 \<or> DecisionLevel (Assignments level_trail ! (k - 1)) \<le> 1"
    unfolding len by blast
  from k(3) [rule_format, of 1] lv(1) have "\<not> k \<le> 1" by auto
  moreover have "k \<noteq> 3" using k(4) lv(2) by auto
  moreover have "k \<noteq> 4" using k(4) lv(3) by auto
  ultimately have "k = 2" using k(1) by arith
  with k(2) show ?thesis by simp
qed

section \<open>The relation of an incompatibility\<close>

lemma SatisfiesIncompatibility_loop_counts:
  "SatisfiesIncompatibility_loop ps ts sc cc =
     (sc + int (length (filter (\<lambda>t. Satisfies ps t = Satisfied) ts)),
      cc + int (length (filter (\<lambda>t. Satisfies ps t = Contradicted) ts)))"
  by (induction ts arbitrary: sc cc) (auto split: SatisfactionResult.splits)

lemma AlmostSatisfies_loop_counts:
  "AlmostSatisfies_loop ps ts sc u =
     (sc + int (length (filter (\<lambda>t. Satisfies ps t = Satisfied) ts)),
      case u of Some x \<Rightarrow> Some x
              | None \<Rightarrow> List.find (\<lambda>t. Satisfies ps t = Inconclusive) ts)"
  by (induction ts arbitrary: sc u) (auto simp: Let_def split: option.splits)

lemma length_filter_all:
  "length (filter P xs) = length xs \<longleftrightarrow> (\<forall>x \<in> set xs. P x)"
  by (induction xs) (auto simp: le_imp_less_Suc [OF length_filter_le] less_imp_neq
        dest: arg_cong [where f = length])

lemma one_unsatisfied:
  "length (filter P xs) + 1 = length xs \<longleftrightarrow>
     (\<exists>i < length xs. \<not> P (xs ! i) \<and> (\<forall>j < length xs. j \<noteq> i \<longrightarrow> P (xs ! j)))"
proof -
  let ?N = "{i. i < length xs \<and> \<not> P (xs ! i)}"
  have "length (filter P xs) + length (filter (\<lambda>x. \<not> P x) xs) = length xs"
    by (rule sum_length_filter_compl)
  then have "length (filter P xs) + 1 = length xs \<longleftrightarrow> card ?N = 1"
    by (simp add: length_filter_conv_card) arith
  also have "\<dots> \<longleftrightarrow> (\<exists>i. ?N = {i})"
    by (simp add: card_1_singleton_iff)
  also have "\<dots> \<longleftrightarrow> (\<exists>i < length xs. \<not> P (xs ! i) \<and> (\<forall>j < length xs. j \<noteq> i \<longrightarrow> P (xs ! j)))"
    by (auto simp: set_eq_iff) 
  finally show ?thesis .
qed


lemma find_unique_index:
  "i < length xs \<Longrightarrow> Q (xs ! i) \<Longrightarrow> (\<forall>j < length xs. j \<noteq> i \<longrightarrow> \<not> Q (xs ! j))
     \<Longrightarrow> List.find Q xs = Some (xs ! i)"
  by (auto simp: find_Some_iff intro!: exI [of _ i])

lemma SatisfiesIncompatibility_Satisfied_iff:
  "SatisfiesIncompatibility ps C = Satisfied
     \<longleftrightarrow> (\<forall>t \<in> set (Terms C). Satisfies ps t = Satisfied)"
proof
  assume "SatisfiesIncompatibility ps C = Satisfied"
  then have "length (filter (\<lambda>t. Satisfies ps t = Satisfied) (Terms C)) = length (Terms C)"
    by (simp add: SatisfiesIncompatibility_def SatisfiesIncompatibility_loop_counts
          split: if_splits)
  then show "\<forall>t \<in> set (Terms C). Satisfies ps t = Satisfied"
    by (simp add: length_filter_all)
next
  assume all: "\<forall>t \<in> set (Terms C). Satisfies ps t = Satisfied"
  then have "length (filter (\<lambda>t. Satisfies ps t = Satisfied) (Terms C)) = length (Terms C)"
    by (simp add: length_filter_all)
  moreover from all have "filter (\<lambda>t. Satisfies ps t = Contradicted) (Terms C) = []"
    by (auto simp: filter_empty_conv)
  ultimately show "SatisfiesIncompatibility ps C = Satisfied"
    by (simp add: SatisfiesIncompatibility_def SatisfiesIncompatibility_loop_counts)
qed

lemma SatisfiesIncompatibility_Contradicted_iff:
  "SatisfiesIncompatibility ps C = Contradicted
     \<longleftrightarrow> (\<exists>t \<in> set (Terms C). Satisfies ps t = Contradicted)"
proof -
  have "SatisfiesIncompatibility ps C = Contradicted
          \<longleftrightarrow> filter (\<lambda>t. Satisfies ps t = Contradicted) (Terms C) \<noteq> []"
    by (simp add: SatisfiesIncompatibility_def SatisfiesIncompatibility_loop_counts)
  then show ?thesis by (simp add: filter_empty_conv)
qed

lemma AlmostSatisfies_PerIteration_iff:
  "AlmostSatisfies PerIteration ps C = Some u
     \<longleftrightarrow> (\<exists>i < length (Terms C). Terms C ! i = u \<and> Satisfies ps u = Inconclusive
            \<and> (\<forall>j < length (Terms C). j \<noteq> i \<longrightarrow> Satisfies ps (Terms C ! j) = Satisfied))"
  (is "?lhs \<longleftrightarrow> ?rhs")
proof
  let ?ts = "Terms C"
  let ?S = "\<lambda>t. Satisfies ps t = Satisfied"
  let ?I = "\<lambda>t. Satisfies ps t = Inconclusive"
  assume ?lhs
  then have cnt: "length (filter ?S ?ts) + 1 = length ?ts" and f: "List.find ?I ?ts = Some u"
    by (auto simp: AlmostSatisfies_def AlmostSatisfies_loop_counts split: if_splits)
  from cnt obtain i where i: "i < length ?ts" "\<not> ?S (?ts ! i)"
    "\<forall>j < length ?ts. j \<noteq> i \<longrightarrow> ?S (?ts ! j)"
    unfolding one_unsatisfied by blast
  from f obtain k where k: "k < length ?ts" "?I (?ts ! k)" "u = ?ts ! k"
    unfolding find_Some_iff by blast
  from k(1,2) i(3) have "k = i" by force
  with k i show ?rhs by blast
next
  let ?ts = "Terms C"
  let ?S = "\<lambda>t. Satisfies ps t = Satisfied"
  let ?I = "\<lambda>t. Satisfies ps t = Inconclusive"
  assume ?rhs
  then obtain i where i: "i < length ?ts" "?ts ! i = u" "?I u"
    "\<forall>j < length ?ts. j \<noteq> i \<longrightarrow> ?S (?ts ! j)"
    by blast
  from i have "\<exists>i < length ?ts. \<not> ?S (?ts ! i) \<and> (\<forall>j < length ?ts. j \<noteq> i \<longrightarrow> ?S (?ts ! j))"
    by (intro exI [of _ i]) simp
  then have cnt: "length (filter ?S ?ts) + 1 = length ?ts"
    unfolding one_unsatisfied .
  from i have "List.find ?I ?ts = Some (?ts ! i)"
    by (intro find_unique_index) auto
  with cnt i(2) show ?lhs
    by (simp add: AlmostSatisfies_def AlmostSatisfies_loop_counts)
qed

lemma AlmostSatisfies_None_iff:
  "AlmostSatisfies lv ps C = None \<longleftrightarrow> AlmostSatisfies PerIteration ps C = None"
  by (cases lv) (auto simp: AlmostSatisfies_def split: prod.splits if_splits)

text \<open>
  What the two functions compute from the relations of the terms, for every
  incompatibility \<open>C\<close> and every partial solution: \<^verbatim>\<open>SatisfiesIncompatibility\<close> is \<^verbatim>\<open>Satisfied\<close>
  iff every term is satisfied and \<^verbatim>\<open>Contradicted\<close> iff some term is contradicted;
  \<^verbatim>\<open>AlmostSatisfies\<close> returns a pointer, under either meaning of the range variable, iff
  exactly one term, counted by position, is inconclusive and every other one is
  satisfied; with a range variable for each iteration the pointer refers to that
  inconclusive term.
\<close>

lemma relation_of_incompatibility:
  "(SatisfiesIncompatibility ps C = Satisfied
      \<longleftrightarrow> (\<forall>t \<in> set (Terms C). Satisfies ps t = Satisfied))
   \<and> (SatisfiesIncompatibility ps C = Contradicted
      \<longleftrightarrow> (\<exists>t \<in> set (Terms C). Satisfies ps t = Contradicted))
   \<and> (AlmostSatisfies lv ps C \<noteq> None
      \<longleftrightarrow> (\<exists>i < length (Terms C). Satisfies ps (Terms C ! i) = Inconclusive
             \<and> (\<forall>j < length (Terms C). j \<noteq> i \<longrightarrow> Satisfies ps (Terms C ! j) = Satisfied)))
   \<and> (AlmostSatisfies PerIteration ps C = Some u
      \<longleftrightarrow> (\<exists>i < length (Terms C). Terms C ! i = u \<and> Satisfies ps u = Inconclusive
             \<and> (\<forall>j < length (Terms C). j \<noteq> i \<longrightarrow> Satisfies ps (Terms C ! j) = Satisfied)))"
proof -
  have "AlmostSatisfies lv ps C \<noteq> None \<longleftrightarrow> (\<exists>u. AlmostSatisfies PerIteration ps C = Some u)"
    by (simp add: AlmostSatisfies_None_iff [of lv])
  also have "\<dots> \<longleftrightarrow> (\<exists>i < length (Terms C). Satisfies ps (Terms C ! i) = Inconclusive
             \<and> (\<forall>j < length (Terms C). j \<noteq> i \<longrightarrow> Satisfies ps (Terms C ! j) = Satisfied))"
    unfolding AlmostSatisfies_PerIteration_iff by blast
  finally show ?thesis
    using SatisfiesIncompatibility_Satisfied_iff [of ps C]
      SatisfiesIncompatibility_Contradicted_iff [of ps C]
      AlmostSatisfies_PerIteration_iff [of ps C u]
    by blast
qed

text \<open>
  With one range variable for the whole loop the pointer that \<^verbatim>\<open>AlmostSatisfies\<close> returns
  refers to the last term of the incompatibility, whichever term was inconclusive.
\<close>

lemma AlmostSatisfies_PerLoop_last:
  "AlmostSatisfies PerLoop ps C = Some u \<Longrightarrow> u = last (Terms C)"
  by (auto simp: AlmostSatisfies_def split: prod.splits if_splits)


section \<open>One decision for each package\<close>

lemma findSatisfier_None: "findSatisfier s incompatibility = None"
proof -
  have "findSatisfier_loop s incompatibility n = None" for n
    by (induction n) (simp_all add: assignmentSatisfiesIncompatibility_def)
  then show ?thesis by (simp add: findSatisfier_def)
qed

lemma resolveConflict_eq:
  "resolveConflict s incompatibility =
     (if isRootCause s incompatibility
      then (Some incompatibility, backtrackFromConflict s incompatibility)
      else (None, s))"
  by (subst resolveConflict.simps) (simp add: findSatisfier_None)

lemma decided_packages_append:
  "decided_packages (as @ bs) = decided_packages as @ decided_packages bs"
  by (simp add: decided_packages_def)

lemma decided_packages_take:
  "distinct (decided_packages as) \<Longrightarrow> distinct (decided_packages (take k as))"
proof -
  assume d: "distinct (decided_packages as)"
  have "decided_packages as = decided_packages (take k as) @ decided_packages (drop k as)"
    by (simp flip: decided_packages_append)
  with d show ?thesis by simp
qed

lemma Backtrack_take:
  "\<exists>k. Assignments (Backtrack ps L) = take k (Assignments ps)"
  using Backtrack_loop_take [of "length (Assignments ps)" "Assignments ps" L]
  by (auto simp: Backtrack_def)

lemma backtrackFromConflict_keeps:
  "one_decision_per_package s \<Longrightarrow> one_decision_per_package (backtrackFromConflict s incompatibility)"
proof -
  assume d: "one_decision_per_package s"
  obtain k where "Assignments (Backtrack (partialSolution s) 0) = take k (Assignments (partialSolution s))"
    using Backtrack_take by blast
  with d show ?thesis
    by (simp add: one_decision_per_package_def backtrackFromConflict_def
          determineBacktrackLevel_def decided_packages_take)
qed

lemma resolveConflict_keeps:
  "resolveConflict s incompatibility = (r, s') \<Longrightarrow> one_decision_per_package s
     \<Longrightarrow> one_decision_per_package s'"
  by (auto simp: resolveConflict_eq backtrackFromConflict_keeps split: if_splits)

lemma derivation_keeps:
  "one_decision_per_package s \<Longrightarrow>
   one_decision_per_package (derive s (derivation ps u cause))"
  by (simp add: one_decision_per_package_def derive_def AddAssignment_def derivation_def
        decided_packages_def)

lemma scan_step_keeps:
  "one_decision_per_package s \<Longrightarrow>
     (case scan_step lv s changed incompatibility of
        Failed c s' \<Rightarrow> one_decision_per_package s'
      | Scanned s' changed' \<Rightarrow> one_decision_per_package s')"
proof -
  assume inv: "one_decision_per_package s"
  show ?thesis
  proof (cases "SatisfiesIncompatibility (partialSolution s) incompatibility")
    case Satisfied
    obtain r s' where rc: "resolveConflict s incompatibility = (r, s')"
      by (cases "resolveConflict s incompatibility")
    from resolveConflict_keeps [OF rc inv] have s': "one_decision_per_package s'" .
    with Satisfied rc show ?thesis
      by (auto simp: scan_step_def derivation_keeps split: option.splits)
  next
    case Inconclusive
    with inv show ?thesis
      by (auto simp: scan_step_def derivation_keeps split: option.splits)
  next
    case Contradicted
    with inv show ?thesis by (simp add: scan_step_def)
  qed
qed

lemma scan_keeps:
  "one_decision_per_package s \<Longrightarrow>
     (case scan lv incs i s changed of
        Failed c s' \<Rightarrow> one_decision_per_package s'
      | Scanned s' changed' \<Rightarrow> one_decision_per_package s')"
proof (induction i arbitrary: s changed)
  case 0
  then show ?case by simp
next
  case (Suc i)
  from scan_step_keeps [OF Suc.prems, of lv changed "incs ! i"] show ?case
    by (cases "scan_step lv s changed (incs ! i)") (simp_all add: Suc.IH)
qed

lemma UnitPropagation_loop_keeps:
  "UnitPropagation_loop lv schedule s changed = Some (result, s') \<Longrightarrow>
   one_decision_per_package s \<Longrightarrow> one_decision_per_package s'"
proof (induction lv schedule s changed rule: UnitPropagation_loop.induct)
  case (1 lv schedule s)
  then show ?case by simp
next
  case (2 lv s p changed)
  then show ?case by simp
next
  case (3 lv k schedule s p changed)
  let ?cur = "(p # changed) ! (k mod length (p # changed))"
  let ?incs = "getIncompatibilitiesForPackage s ?cur"
  let ?sc = "scan lv ?incs (length ?incs) s (removeAll ?cur (p # changed))"
  from scan_keeps [OF "3.prems"(2), of lv ?incs "length ?incs" "removeAll ?cur (p # changed)"]
  have keeps: "case ?sc of Failed c s' \<Rightarrow> one_decision_per_package s'
                | Scanned s' changed' \<Rightarrow> one_decision_per_package s'" .
  show ?case
  proof (cases ?sc)
    case (Failed c s1)
    with "3.prems"(1) keeps show ?thesis by (simp add: Let_def)
  next
    case (Scanned s1 changed1)
    with keeps have "one_decision_per_package s1" by simp
    moreover from Scanned "3.prems"(1)
    have "UnitPropagation_loop lv schedule s1 changed1 = Some (result, s')"
      by (simp add: Let_def)
    ultimately show ?thesis using "3.IH" [OF refl refl refl Scanned] by blast
  qed
qed

lemma hasDecision_iff: "hasDecision as p \<longleftrightarrow> p \<in> set (decided_packages as)"
  by (induction as) (auto simp: decided_packages_def)

lemma findPackageForDecision_loop_undecided:
  "findPackageForDecision_loop all as \<noteq> [] \<Longrightarrow>
   \<not> hasDecision all (findPackageForDecision_loop all as)"
  by (induction as) (auto split: if_splits)

lemma decide_keeps:
  "one_decision_per_package s \<Longrightarrow> \<not> hasDecision (Assignments (partialSolution s)) p \<Longrightarrow>
   one_decision_per_package (snd (decide s p v))"
  by (simp add: one_decision_per_package_def decide_def addDependenciesForVersion_def
        AddAssignment_def Let_def decided_packages_def hasDecision_iff)

lemma DecisionMaking_keeps:
  "DecisionMaking s = (r, s') \<Longrightarrow> one_decision_per_package s \<Longrightarrow> one_decision_per_package s'"
proof -
  assume dm: "DecisionMaking s = (r, s')" and inv: "one_decision_per_package s"
  let ?p = "findPackageForDecision s"
  show ?thesis
  proof (cases "?p = []")
    case True
    with dm inv show ?thesis by (simp add: DecisionMaking_def)
  next
    case False
    then have und: "\<not> hasDecision (Assignments (partialSolution s)) ?p"
      unfolding findPackageForDecision_def by (rule findPackageForDecision_loop_undecided)
    show ?thesis
    proof (cases "getTermForPackage s ?p")
      case None
      with False dm inv show ?thesis by (simp add: DecisionMaking_def)
    next
      case (Some t)
      show ?thesis
      proof (cases "findMatchingVersion s ?p t = []")
        case True
        with False Some dm have "s' = snd (no_matching_version s ?p t)"
          by (simp add: DecisionMaking_def Let_def)
        with inv show ?thesis
          by (simp add: no_matching_version_def one_decision_per_package_def)
      next
        case v: False
        with False Some dm have "s' = snd (decide s ?p (findMatchingVersion s ?p t))"
          by (simp add: DecisionMaking_def Let_def)
        with decide_keeps [OF inv und] show ?thesis by simp
      qed
    qed
  qed
qed

lemma initializeRootPackage_fresh:
  "Assignments (partialSolution s0) = [] \<Longrightarrow> one_decision_per_package (initializeRootPackage s0)"
  by (simp add: initializeRootPackage_def addRootIncompatibilities_def AddAssignment_def
        one_decision_per_package_def decided_packages_def Let_def)

lemma Solve_loop_keeps:
  "Solve_loop lv schedules s nextPackage = Some (r, s') \<Longrightarrow> one_decision_per_package s \<Longrightarrow>
   one_decision_per_package s'"
proof (induction schedules arbitrary: s nextPackage)
  case Nil
  then show ?case by simp
next
  case (Cons schedule schedules)
  from Cons.prems(1) obtain result s1 where
    up: "UnitPropagation lv schedule s nextPackage = Some (result, s1)"
    by (cases "UnitPropagation lv schedule s nextPackage") auto
  with Cons.prems(2) have s1: "one_decision_per_package s1"
    unfolding UnitPropagation_def by (blast intro: UnitPropagation_loop_keeps)
  obtain d s2 where dm: "DecisionMaking s1 = (d, s2)" by (cases "DecisionMaking s1")
  with s1 have s2: "one_decision_per_package s2" by (blast intro: DecisionMaking_keeps)
  show ?case
  proof (cases "Success_up result")
    case False
    with Cons.prems(1) up s1 show ?thesis by simp
  next
    case True
    with Cons.prems(1) up dm s2 Cons.IH [of s2 "NextPackage d"] show ?thesis
      by (auto split: if_splits)
  qed
qed

text \<open>
  Claim C8. Start \<^verbatim>\<open>Solve\<close> on a solver whose trail is empty, as \<^verbatim>\<open>NewSolver\<close> builds it, with
  any incompatibilities added. At the head of every iteration of the main loop, again
  when the call of \<^verbatim>\<open>UnitPropagation\<close> of that iteration has returned, and when \<^verbatim>\<open>Solve\<close>
  returns, the trail holds at most one decision for each package.
\<close>

theorem one_decision_per_package_invariant:
  "Assignments (partialSolution s0) = [] \<Longrightarrow> loop_head lv s0 s nextPackage \<Longrightarrow>
   one_decision_per_package s
   \<and> (\<forall>schedule result s1. UnitPropagation lv schedule s nextPackage = Some (result, s1)
        \<longrightarrow> one_decision_per_package s1)
   \<and> (\<forall>schedules r s'. Solve lv schedules s0 = Some (r, s')
        \<longrightarrow> one_decision_per_package s')"
proof -
  assume fresh: "Assignments (partialSolution s0) = []" and head: "loop_head lv s0 s nextPackage"
  from head have "one_decision_per_package s"
  proof (induction rule: loop_head.induct)
    case first
    from fresh show ?case by (rule initializeRootPackage_fresh)
  next
    case (again s nextPackage schedule result s1 decisionResult s2)
    from again.hyps(2) again.IH have "one_decision_per_package s1"
      unfolding UnitPropagation_def by (rule UnitPropagation_loop_keeps)
    with again.hyps(4) show ?case by (rule DecisionMaking_keeps)
  qed
  moreover have "one_decision_per_package s'" if "Solve lv schedules s0 = Some (r, s')"
    for schedules r s'
    using that initializeRootPackage_fresh [OF fresh] unfolding Solve_def
    by (rule Solve_loop_keeps)
  ultimately show ?thesis
    unfolding UnitPropagation_def by (blast intro: UnitPropagation_loop_keeps)
qed

text \<open>
  The solver for \<open>foo 1.0.0\<close> with \<open>{foo 1.0.0, not p 1}\<close> and \<open>{p 1}\<close> added: the trail is empty
  before, the loop is entered with the root package, unit propagation returns, and so does
  \<^verbatim>\<open>Solve\<close>, with the root decision as the only decision on the trail.
\<close>

theorem one_decision_per_package_invariant_witness:
  "Assignments (partialSolution p_solver) = []
   \<and> loop_head PerIteration p_solver (initializeRootPackage p_solver) ''foo''
   \<and> UnitPropagation PerIteration [0, 1] (initializeRootPackage p_solver) ''foo''
       = Some (\<lparr>Success_up = False, Conflict = Some only_p\<rparr>, at_p_conflict)
   \<and> Solve PerIteration [[0, 1]] p_solver
       = Some (SolveError ''version solving failed: conflict detected'', at_p_conflict)
   \<and> one_decision_per_package (initializeRootPackage p_solver)
   \<and> one_decision_per_package at_p_conflict"
proof -
  have fresh: "Assignments (partialSolution p_solver) = []"
    by code_simp
  have root: "rootPackage p_solver = ''foo''"
    by code_simp
  have head: "loop_head PerIteration p_solver (initializeRootPackage p_solver) ''foo''"
    using loop_head.first [of PerIteration p_solver] by (simp add: root)
  have up: "UnitPropagation PerIteration [0, 1] (initializeRootPackage p_solver) ''foo''
       = Some (\<lparr>Success_up = False, Conflict = Some only_p\<rparr>, at_p_conflict)"
    by code_simp
  have solve: "Solve PerIteration [[0, 1]] p_solver
       = Some (SolveError ''version solving failed: conflict detected'', at_p_conflict)"
    by code_simp
  from one_decision_per_package_invariant [OF fresh head] fresh head up solve
  show ?thesis by blast
qed

section \<open>Decision making always finds a version\<close>

lemma findMatchingVersion_nonempty: "findMatchingVersion s packageName t \<noteq> []"
  by (simp add: findMatchingVersion_def IsSpecific_def)

lemma no_matching_version_grows:
  "length (incompatibilities (snd (no_matching_version s p t))) = Suc (length (incompatibilities s))"
  "partialSolution (snd (no_matching_version s p t)) = partialSolution s"
  by (simp_all add: no_matching_version_def)

lemma decide_trail:
  "Assignments (partialSolution (snd (decide s p v))) \<noteq> Assignments (partialSolution s)"
  by (simp add: decide_def addDependenciesForVersion_def AddAssignment_def Let_def)

text \<open>
  Claim C10. \<^verbatim>\<open>findMatchingVersion\<close> never returns the empty string: it returns the version of
  a specific constraint, which is not empty, and \<open>1.0.0\<close> otherwise. Hence, on every solver,
  \<^verbatim>\<open>DecisionMaking\<close> does not leave through the branch for a missing version: what it returns
  is never what that branch returns, for whatever package and term.
\<close>

theorem no_matching_version_unreachable:
  "findMatchingVersion s packageName t \<noteq> []
   \<and> findMatchingVersion s packageName t
       = (if IsSpecific (Version t) then Specific (Version t) else ''1.0.0'')
   \<and> DecisionMaking s \<noteq> no_matching_version s packageName' t'"
proof -
  have "DecisionMaking s \<noteq> no_matching_version s packageName' t'"
  proof
    assume eq: "DecisionMaking s = no_matching_version s packageName' t'"
    let ?p = "findPackageForDecision s"
    show False
    proof (cases "?p = []")
      case True
      then have "snd (DecisionMaking s) = s" by (simp add: DecisionMaking_def)
      with eq no_matching_version_grows(1) [of s packageName' t'] show False by simp
    next
      case False
      show False
      proof (cases "getTermForPackage s ?p")
        case None
        with False have "snd (DecisionMaking s) = s" by (simp add: DecisionMaking_def)
        with eq no_matching_version_grows(1) [of s packageName' t'] show False by simp
      next
        case (Some u)
        with False have "DecisionMaking s = decide s ?p (findMatchingVersion s ?p u)"
          by (simp add: DecisionMaking_def findMatchingVersion_nonempty Let_def)
        with eq decide_trail [of s ?p "findMatchingVersion s ?p u"]
          no_matching_version_grows(2) [of s packageName' t']
        show False by simp
      qed
    qed
  qed
  moreover have "findMatchingVersion s packageName t
      = (if IsSpecific (Version t) then Specific (Version t) else ''1.0.0'')"
    by (simp add: findMatchingVersion_def)
  ultimately show ?thesis
    using findMatchingVersion_nonempty [of s packageName t] by blast
qed

section \<open>Conflict resolution learns nothing\<close>

text \<open>
  Claim C1 says that \<^verbatim>\<open>resolveConflict\<close> returns a learned incompatibility and cuts the
  trail so that this incompatibility is almost satisfied. Two inputs where it returns
  \<^verbatim>\<open>nil\<close> and leaves the trail alone.

  During a solve: with \<open>{foo 1.0.0, not p 1}\<close> and \<open>{p 1}\<close> added, \<^verbatim>\<open>Solve\<close> meets the satisfied
  incompatibility \<open>{p 1}\<close> and fails there.

  With a decision above the root level: the trail \<open>foo 1.0.0\<close> (level 0), \<open>p 1\<close> (level 1)
  satisfies \<open>{foo 1.0.0, p 1}\<close>. Cut to level 0, the trail almost satisfies that
  incompatibility, with \<open>p 1\<close> left over, so an incompatibility and a level as the claim
  describes them exist; \<^verbatim>\<open>resolveConflict\<close> returns \<^verbatim>\<open>nil\<close> and \<^verbatim>\<open>UnitPropagation\<close> fails.
\<close>

theorem resolveConflict_returns_nil:
  "Solve lv [[0, 1]] p_solver
     = Some (SolveError ''version solving failed: conflict detected'', at_p_conflict)
   \<and> SatisfiesIncompatibility (partialSolution at_p_conflict) only_p = Satisfied
   \<and> resolveConflict at_p_conflict only_p = (None, at_p_conflict)
   \<and> SatisfiesIncompatibility (partialSolution at_level_one) foo_and_p = Satisfied
   \<and> resolveConflict at_level_one foo_and_p = (None, at_level_one)
   \<and> UnitPropagation lv [0] at_level_one ''p''
       = Some (\<lparr>Success_up = False, Conflict = Some foo_and_p\<rparr>, at_level_one)
   \<and> AlmostSatisfies lv (Backtrack (partialSolution at_level_one) 0) foo_and_p = Some p_term"
  by (induct lv; code_simp)

section \<open>The prior cause keeps the resolved term\<close>

text \<open>
  Claim C2 says that the prior cause is the union of the incompatibility and the cause of
  the satisfier without the two terms resolved on, with at most one term for each package.
  \<^verbatim>\<open>createPriorCause\<close> returns all the terms of the incompatibility, the one satisfied by the
  satisfier among them, followed by the terms of the cause on other packages, and combines
  nothing. For the incompatibility \<open>{p 1, foo 1.0.0}\<close> and the derivation of \<open>p 1\<close> from
  \<open>{foo 1.0.0, not p 1}\<close> the claim gives the single term \<open>foo 1.0.0\<close>; \<^verbatim>\<open>createPriorCause\<close>
  keeps the term \<open>p 1\<close> and returns \<open>foo 1.0.0\<close> twice.
\<close>

theorem createPriorCause_keeps_pivot:
  "take (length (Terms C)) (Terms (createPriorCause s C satisfier)) = Terms C
   \<and> Terms (createPriorCause s (Incompatibility [p_term, foo_term] None) p_derivation)
       = [p_term, foo_term, foo_term]"
  by (simp add: createPriorCause_def Let_def p_derivation_def needs_p_def p_term_def
        foo_term_def split: option.split)

section \<open>Unit propagation goes on after a conflict\<close>

text \<open>
  Claim C3 says that after a conflict that conflict resolution turns into \<open>C'\<close> the
  changed set is the package of the term newly derived from \<open>C'\<close> alone, and that the
  rest of the incompatibilities of the current package is not looked at. The inner loop
  of \<^verbatim>\<open>UnitPropagation\<close> has no \<^verbatim>\<open>break\<close>.

  \<^verbatim>\<open>TestSolver_Solve_Success\<close>, with \<open>{foo 1.0.0, not bar 1.0.0}\<close> added before \<open>{foo 1.0.0}\<close>: the
  first pass, on \<open>foo\<close>, goes from the newest incompatibility to the oldest. The root
  incompatibility gives the derivation of \<open>dependency >=1.0.0\<close>. Then \<open>{foo 1.0.0}\<close> is
  satisfied, a conflict; \<^verbatim>\<open>resolveConflict\<close> returns that same incompatibility, which the
  trail still satisfies, so no term is derived from it and the changed set stays
  \<open>dependency\<close>. The pass then goes on to \<open>{foo 1.0.0, not bar 1.0.0}\<close>, derives \<open>bar 1.0.0\<close>
  from it, and ends with \<open>dependency\<close> and \<open>bar\<close> changed.
\<close>

theorem scan_goes_on_after_conflict:
  "getIncompatibilitiesForPackage (initializeRootPackage bar_solver) ''foo''
     = [needs_bar, only_foo, foo_dependency]
   \<and> scan lv [needs_bar, only_foo, foo_dependency] 3 (initializeRootPackage bar_solver) []
       = scan lv [needs_bar, only_foo, foo_dependency] 2 before_bar [''dependency'']
   \<and> SatisfiesIncompatibility (partialSolution before_bar) only_foo = Satisfied
   \<and> resolveConflict before_bar only_foo = (Some only_foo, before_bar)
   \<and> AlmostSatisfies lv (partialSolution before_bar) only_foo = None
   \<and> scan_step lv before_bar [''dependency''] only_foo = Scanned before_bar [''dependency'']
   \<and> scan lv [needs_bar, only_foo, foo_dependency] 2 before_bar [''dependency'']
       = Scanned after_bar [''dependency'', ''bar'']"
  by (induct lv; code_simp)

section \<open>The relation of a term is never a contradiction\<close>

lemma Satisfies_contradicts_never: "\<not> Satisfies_contradicts as t"
  by (induction as) (simp_all add: areCompatible_def)

lemma Satisfies_satisfied_iff:
  "Satisfies_satisfied as t \<longleftrightarrow>
     (\<exists>a \<in> set as. Package (Term a) = Package t \<and> Negated (Term a) = Negated t
        \<and> satisfies (Version (Term a)) (Version t))"
  by (induction as) auto

lemma Satisfies_eq:
  "Satisfies ps t =
     (if \<exists>a \<in> set (Assignments ps). Package (Term a) = Package t \<and> Negated (Term a) = Negated t
            \<and> satisfies (Version (Term a)) (Version t)
      then Satisfied else Inconclusive)"
  by (simp add: Satisfies_def Satisfies_contradicts_never Satisfies_satisfied_iff)

text \<open>
  Claim C5 says that a positive term is satisfied when the versions asserted so far are
  all in its set, contradicted when none of them is, and inconclusive otherwise.
  \<^verbatim>\<open>Satisfies\<close> never returns \<^verbatim>\<open>Contradicted\<close>, since \<^verbatim>\<open>areCompatible\<close> is true of all constraints:
  on the trail that holds the decision \<open>foo 1.0.0\<close> alone, the term \<open>foo 2.0.0\<close> is
  inconclusive. And a single assignment with the constraint \<open>any\<close> satisfies every term
  of its package and polarity: on the trail that asserts \<open>foo any\<close> alone, the term
  \<open>foo 1.0.0\<close> is satisfied.
\<close>

theorem Satisfies_never_Contradicted:
  "Satisfies ps t \<noteq> Contradicted
   \<and> Satisfies foo_trail foo2_term = Inconclusive
   \<and> Satisfies any_foo_trail foo_term = Satisfied"
proof -
  have "Satisfies ps t \<noteq> Contradicted"
    by (simp add: Satisfies_def Satisfies_contradicts_never)
  moreover have "Satisfies foo_trail foo2_term = Inconclusive" by code_simp
  moreover have "Satisfies any_foo_trail foo_term = Satisfied" by code_simp
  ultimately show ?thesis by simp
qed

section \<open>A root cause does not end the solve\<close>

lemma Backtrack_at_level:
  "Assignments ps \<noteq> [] \<Longrightarrow> DecisionLevel (last (Assignments ps)) \<le> L \<Longrightarrow> Backtrack ps L = ps"
proof -
  assume ne: "Assignments ps \<noteq> []" and lv: "DecisionLevel (last (Assignments ps)) \<le> L"
  from ne obtain n where n: "length (Assignments ps) = Suc n" by (cases "Assignments ps") auto
  with ne have "last (Assignments ps) = Assignments ps ! n" by (simp add: last_conv_nth)
  with lv n show ?thesis by (simp add: Backtrack_def)
qed

lemma conflict_test_levels:
  assumes "conflict_test_state s"
  shows "Assignments (partialSolution s) \<noteq> []"
    and "DecisionLevel (last (Assignments (partialSolution s))) = 0"
proof -
  from assms obtain rest where r: "Assignments (partialSolution s) = foo_decision # rest"
    "set rest \<subseteq> {dependency_derivation, foo_derivation}"
    unfolding conflict_test_state_def by blast
  then show "Assignments (partialSolution s) \<noteq> []" by simp
  have "\<forall>a \<in> set (foo_decision # rest). DecisionLevel a = 0"
    using r(2) by (auto simp: foo_decision_def dependency_derivation_def foo_derivation_def)
  moreover have "last (foo_decision # rest) \<in> set (foo_decision # rest)"
    by (rule last_in_set) simp
  ultimately show "DecisionLevel (last (Assignments (partialSolution s))) = 0"
    unfolding r(1) by blast
qed

lemma conflict_test_terms:
  assumes "conflict_test_state s"
  shows "Satisfies (partialSolution s) foo_term = Satisfied"
    and "Satisfies (partialSolution s) not_dependency = Inconclusive"
    and "Satisfies (partialSolution s) (foo_term\<lparr>Negated := True\<rparr>) = Inconclusive"
proof -
  from assms obtain rest where r: "Assignments (partialSolution s) = foo_decision # rest"
    "set rest \<subseteq> {dependency_derivation, foo_derivation}"
    unfolding conflict_test_state_def by blast
  show "Satisfies (partialSolution s) foo_term = Satisfied"
    unfolding Satisfies_eq r(1) by (simp add: foo_decision_def satisfies_def)
  show "Satisfies (partialSolution s) not_dependency = Inconclusive"
    unfolding Satisfies_eq r(1) using r(2)
    by (auto simp: foo_decision_def foo_term_def not_dependency_def dependency_derivation_def
          foo_derivation_def)
  show "Satisfies (partialSolution s) (foo_term\<lparr>Negated := True\<rparr>) = Inconclusive"
    unfolding Satisfies_eq r(1) using r(2)
    by (auto simp: foo_decision_def foo_term_def not_dependency_def dependency_derivation_def
          foo_derivation_def)
qed

lemma conflict_test_derive:
  "conflict_test_state s \<Longrightarrow> a \<in> {dependency_derivation, foo_derivation} \<Longrightarrow>
   conflict_test_state (derive s a)"
  by (auto simp: conflict_test_state_def derive_def AddAssignment_def)

lemma conflict_test_scan_dependency:
  assumes "conflict_test_state s"
  shows "scan_step lv s changed foo_dependency
           = Scanned (derive s dependency_derivation) (changed_add ''dependency'' changed)"
proof -
  note t = conflict_test_terms [OF assms(1)]
  have si: "SatisfiesIncompatibility (partialSolution s) foo_dependency = Inconclusive"
    by (simp add: SatisfiesIncompatibility_def foo_dependency_def t)
  have al: "AlmostSatisfies lv (partialSolution s) foo_dependency = Some not_dependency"
    by (cases lv) (simp_all add: AlmostSatisfies_def foo_dependency_def t)
  have "derivation (partialSolution s) not_dependency foo_dependency = dependency_derivation"
    by (simp add: derivation_def dependency_derivation_def GetDecisionLevel_def
          conflict_test_levels [OF assms(1)] not_dependency_def)
  with si al show ?thesis
    by (simp add: scan_step_def not_dependency_def)
qed

lemma conflict_test_scan_not_foo:
  assumes "conflict_test_state s"
  shows "scan_step lv s changed only_not_foo
           = Scanned (derive s foo_derivation) (changed_add ''foo'' changed)"
proof -
  note t = conflict_test_terms [OF assms(1)]
  have si: "SatisfiesIncompatibility (partialSolution s) only_not_foo = Inconclusive"
    by (simp add: SatisfiesIncompatibility_def only_not_foo_def t)
  have al: "AlmostSatisfies lv (partialSolution s) only_not_foo = Some (foo_term\<lparr>Negated := True\<rparr>)"
    by (cases lv) (simp_all add: AlmostSatisfies_def only_not_foo_def t)
  have "derivation (partialSolution s) (foo_term\<lparr>Negated := True\<rparr>) only_not_foo = foo_derivation"
    by (simp add: derivation_def foo_derivation_def GetDecisionLevel_def
          conflict_test_levels [OF assms(1)] foo_term_def)
  with si al show ?thesis
    by (simp add: scan_step_def foo_term_def)
qed

lemma conflict_test_scan_foo:
  assumes "conflict_test_state s"
  shows "scan_step lv s changed only_foo = Scanned s changed"
proof -
  note t = conflict_test_terms [OF assms(1)]
  have si: "SatisfiesIncompatibility (partialSolution s) only_foo = Satisfied"
    by (simp add: SatisfiesIncompatibility_def only_foo_def t)
  have root: "isRootCause s only_foo"
    using assms(1) by (simp add: isRootCause_def only_foo_def conflict_test_state_def foo_term_def)
  have "backtrackFromConflict s only_foo = s"
    by (simp add: backtrackFromConflict_def determineBacktrackLevel_def
          Backtrack_at_level conflict_test_levels [OF assms(1)])
  with root have rc: "resolveConflict s only_foo = (Some only_foo, s)"
    by (simp add: resolveConflict_eq)
  have al: "AlmostSatisfies lv (partialSolution s) only_foo = None"
    by (simp add: AlmostSatisfies_def only_foo_def t)
  from si rc al show ?thesis by (simp add: scan_step_def)
qed

lemma conflict_test_pass:
  assumes "conflict_test_state s" and "currentPackage \<in> {''foo'', ''dependency''}"
  shows "\<exists>s' changed'.
           scan lv (getIncompatibilitiesForPackage s currentPackage)
             (length (getIncompatibilitiesForPackage s currentPackage)) s changed
             = Scanned s' changed'
           \<and> conflict_test_state s' \<and> changed' \<noteq> []
           \<and> set changed' \<subseteq> set changed \<union> {''foo'', ''dependency''}"
proof -
  let ?d = "derive s dependency_derivation"
  have d: "conflict_test_state ?d" using assms(1) by (simp add: conflict_test_derive)
  let ?f = "derive ?d foo_derivation"
  have f: "conflict_test_state ?f" using d by (simp add: conflict_test_derive)
  from assms(2) consider "currentPackage = ''foo''" | "currentPackage = ''dependency''" by blast
  then show ?thesis
  proof cases
    case 1
    have incs: "getIncompatibilitiesForPackage s ''foo'' = [only_foo, only_not_foo, foo_dependency]"
      using assms(1)
      by (simp add: getIncompatibilitiesForPackage_def conflict_test_state_def only_foo_def
            only_not_foo_def foo_dependency_def foo_term_def not_dependency_def)
    have "scan lv [only_foo, only_not_foo, foo_dependency] (Suc (Suc (Suc 0))) s changed
            = Scanned ?f (changed_add ''foo'' (changed_add ''dependency'' changed))"
      by (simp add: conflict_test_scan_dependency [OF assms(1)]
            conflict_test_scan_not_foo [OF d] conflict_test_scan_foo [OF f])
    with 1 incs f show ?thesis by (auto simp: changed_add_def numeral_3_eq_3)
  next
    case 2
    have incs: "getIncompatibilitiesForPackage s ''dependency'' = [foo_dependency]"
      using assms(1)
      by (simp add: getIncompatibilitiesForPackage_def conflict_test_state_def only_foo_def
            only_not_foo_def foo_dependency_def foo_term_def not_dependency_def)
    have "scan lv [foo_dependency] (Suc 0) s changed
            = Scanned ?d (changed_add ''dependency'' changed)"
      by (simp add: conflict_test_scan_dependency [OF assms(1)])
    with 2 incs d show ?thesis by (auto simp: changed_add_def)
  qed
qed

lemma conflict_test_runs_on:
  "conflict_test_state s \<Longrightarrow> changed \<noteq> [] \<Longrightarrow> set changed \<subseteq> {''foo'', ''dependency''} \<Longrightarrow>
   UnitPropagation_loop lv schedule s changed = None"
proof (induction schedule arbitrary: s changed)
  case Nil
  then show ?case by (cases changed) simp_all
next
  case (Cons k schedule)
  from Cons.prems(2) obtain p rest where ch: "changed = p # rest" by (cases changed) auto
  let ?cur = "(p # rest) ! (k mod length (p # rest))"
  have "?cur \<in> set (p # rest)" by (rule nth_mem) simp
  with Cons.prems(3) ch have cur: "?cur \<in> {''foo'', ''dependency''}" by blast
  from conflict_test_pass [OF Cons.prems(1) cur, of lv "removeAll ?cur (p # rest)"]
  obtain s' changed' where pass:
    "scan lv (getIncompatibilitiesForPackage s ?cur)
       (length (getIncompatibilitiesForPackage s ?cur)) s (removeAll ?cur (p # rest))
       = Scanned s' changed'"
    "conflict_test_state s'" "changed' \<noteq> []"
    "set changed' \<subseteq> set (removeAll ?cur (p # rest)) \<union> {''foo'', ''dependency''}"
    by blast
  have "set (removeAll ?cur (p # rest)) \<subseteq> set (p # rest)"
    unfolding set_removeAll by blast
  with pass(4) Cons.prems(3) have "set changed' \<subseteq> {''foo'', ''dependency''}"
    unfolding ch by blast
  from Cons.IH [OF pass(2,3) this] pass(1) ch show ?case by (simp add: Let_def)
qed

text \<open>
  Claim C6 says that the solve fails as soon as conflict resolution reaches an
  incompatibility without terms or with a single positive term for the root package.
  \<^verbatim>\<open>TestSolver_Solve_Conflict\<close> expects that failure. On its input the first pass of unit
  propagation comes to the satisfied incompatibility \<open>{foo 1.0.0}\<close>, which \<^verbatim>\<open>isRootCause\<close>
  accepts; \<^verbatim>\<open>resolveConflict\<close> returns it as if it had been learned, the pass ends without
  a failure, and \<^verbatim>\<open>Solve\<close> returns neither a failure nor anything else, whatever the order
  in which packages leave the changed map and however long it runs.
\<close>

theorem root_cause_does_not_fail:
  "isRootCause at_root_conflict only_foo
   \<and> SatisfiesIncompatibility (partialSolution at_root_conflict) only_foo = Satisfied
   \<and> resolveConflict at_root_conflict only_foo = (Some only_foo, at_root_conflict)
   \<and> scan lv (getIncompatibilitiesForPackage (initializeRootPackage test_conflict_solver) ''foo'')
        3 (initializeRootPackage test_conflict_solver) []
       = Scanned at_root_conflict [''dependency'', ''foo'']
   \<and> Solve lv schedules test_conflict_solver = None"
proof -
  have init: "conflict_test_state (initializeRootPackage test_conflict_solver)"
    by (simp add: conflict_test_state_def initializeRootPackage_def addRootIncompatibilities_def
          test_conflict_solver_def AddIncompatibility_def NewSolver_def AddAssignment_def
          foo_dependency_def foo_decision_def foo_term_def not_dependency_def Let_def)
  have root: "rootPackage test_conflict_solver = ''foo''"
    by (simp add: test_conflict_solver_def AddIncompatibility_def NewSolver_def)
  have never: "Solve lv schedules test_conflict_solver = None"
  proof (cases schedules)
    case Nil
    then show ?thesis by (simp add: Solve_def)
  next
    case (Cons schedule rest)
    have "UnitPropagation lv schedule (initializeRootPackage test_conflict_solver) ''foo'' = None"
      unfolding UnitPropagation_def by (rule conflict_test_runs_on [OF init]) simp_all
    with Cons root show ?thesis by (simp add: Solve_def)
  qed
  have "isRootCause at_root_conflict only_foo
    \<and> SatisfiesIncompatibility (partialSolution at_root_conflict) only_foo = Satisfied
    \<and> resolveConflict at_root_conflict only_foo = (Some only_foo, at_root_conflict)
    \<and> scan lv (getIncompatibilitiesForPackage (initializeRootPackage test_conflict_solver) ''foo'')
        3 (initializeRootPackage test_conflict_solver) []
       = Scanned at_root_conflict [''dependency'', ''foo'']"
    by (induct lv; code_simp)
  with never show ?thesis by simp
qed

section \<open>The trail depends on the order of the changed map\<close>

text \<open>
  Claim C7 says that two runs of \<^verbatim>\<open>Solve\<close> on the same input leave the same trail. With
  \<open>{foo 1.0.0, not p 1}\<close> and \<open>{p 1}\<close> added, the first pass leaves \<open>dependency\<close> and \<open>p\<close> in the
  changed map. When \<open>p\<close> comes out of the map first the solve fails with three assignments
  on the trail; when \<open>dependency\<close> comes out first, it fails with four.
\<close>

theorem Solve_depends_on_map_order:
  "trail_packages (Solve lv [[0, 1]] p_solver) = Some [''foo'', ''dependency'', ''p'']
   \<and> trail_packages (Solve lv [[0, 0, 0]] p_solver)
       = Some [''foo'', ''dependency'', ''p'', ''dependency'']"
  by (induct lv; code_simp)

end
